theory Spec2Isabelle
  imports Complex_Main "HOL-Library.Word"
begin

section \<open>The Telegram bot service of the panel (web/service/tgbot.go)\<close>

text \<open>
  A shallow embedding of \<^verbatim>\<open>web/service/tgbot.go\<close>. Chat identifiers and traffic totals
  are Go's \<^verbatim>\<open>int64\<close>, modelled as 64-bit words read in two's complement. Go strings are
  byte sequences, modelled as \<^typ>\<open>string\<close>.
\<close>

type_synonym int64 = "64 word"

subsection \<open>Library functions the service calls\<close>

text \<open>
  \<^verbatim>\<open>strings.Split(s, ",")\<close> with a one-byte separator: the pieces between the separators,
  in order; a string without separator (the empty string too) is one piece.
\<close>

fun Split :: "string \<Rightarrow> char \<Rightarrow> string list" where
  "Split [] sep = [[]]"
| "Split (c # cs) sep =
     (if c = sep then [] # Split cs sep
      else (case Split cs sep of
              [] \<Rightarrow> [[c]]
            | piece # pieces \<Rightarrow> (c # piece) # pieces))"

text \<open>
  \<^verbatim>\<open>strconv.ParseUint(s, 10, 64)\<close> and \<^verbatim>\<open>strconv.ParseInt(s, 10, 64)\<close>. Both return a value
  together with an error, as in Go: a syntax error comes with the value 0, a range error
  with the nearest representable value. The unsigned accumulator is a natural number and
  the two overflow checks of the loop are written out against \<open>maxUint64\<close>.
\<close>

datatype NumError = ErrSyntax | ErrRange

definition maxUint64 :: nat where
  "maxUint64 = 2 ^ 64 - 1"

definition lower :: "nat \<Rightarrow> nat" where
  "lower c = (if (c div 32) mod 2 = 0 then c + 32 else c)"

fun ParseUint_loop :: "string \<Rightarrow> nat \<Rightarrow> nat \<times> NumError option" where
  "ParseUint_loop [] n = (n, None)"
| "ParseUint_loop (c # cs) n =
     (let b = (of_char c :: nat) in
      if 48 \<le> b \<and> b \<le> 57 then
        (let d = b - 48 in
         if d \<ge> 10 then (0, Some ErrSyntax)
         else if n \<ge> maxUint64 div 10 + 1 then (maxUint64, Some ErrRange)
         else if n * 10 + d > maxUint64 then (maxUint64, Some ErrRange)
         else ParseUint_loop cs (n * 10 + d))
      else if 97 \<le> lower b \<and> lower b \<le> 122 then
        (let d = lower b - 97 + 10 in
         if d \<ge> 10 then (0, Some ErrSyntax)
         else if n \<ge> maxUint64 div 10 + 1 then (maxUint64, Some ErrRange)
         else if n * 10 + d > maxUint64 then (maxUint64, Some ErrRange)
         else ParseUint_loop cs (n * 10 + d))
      else (0, Some ErrSyntax))"

definition ParseUint :: "string \<Rightarrow> nat \<times> NumError option" where
  "ParseUint s = (if s = [] then (0, Some ErrSyntax) else ParseUint_loop s 0)"

definition ParseInt :: "string \<Rightarrow> int64 \<times> NumError option" where
  "ParseInt s =
     (if s = [] then (0, Some ErrSyntax)
      else
        (let neg = (hd s = CHR ''-'');
             s1 = (if hd s = CHR ''+'' then tl s else if hd s = CHR ''-'' then tl s else s);
             r = ParseUint s1;
             un = fst r;
             err = snd r
         in if err \<noteq> None \<and> err \<noteq> Some ErrRange then (0, err)
            else if \<not> neg \<and> un \<ge> 2 ^ 63 then (of_nat (2 ^ 63 - 1), Some ErrRange)
            else if neg \<and> un > 2 ^ 63 then (- of_nat (2 ^ 63), Some ErrRange)
            else (if neg then - of_nat un else of_nat un, None)))"

text \<open>
  \<^verbatim>\<open>fmt.Sprintf\<close> with the verbs the service uses. \<^verbatim>\<open>%d\<close> prints an integer in decimal.
  \<^verbatim>\<open>%.2f\<close> prints a \<^verbatim>\<open>float64\<close> with two decimals: every finite \<^verbatim>\<open>float64\<close> is a rational
  number, printed as its exact value rounded to two decimals, a tie going to the even
  neighbour; the sign is printed first. (The negative zero is not told apart.)
\<close>

definition digit_char :: "nat \<Rightarrow> char" where
  "digit_char d = ''0123456789'' ! d"

fun decimal :: "nat \<Rightarrow> string" where
  "decimal n = (if n < 10 then [digit_char n] else decimal (n div 10) @ [digit_char (n mod 10)])"

declare decimal.simps [simp del]

definition fmt_d :: "int \<Rightarrow> string" where
  "fmt_d i = (if i < 0 then CHR ''-'' # decimal (nat (- i)) else decimal (nat i))"

datatype float64 = Finite rat | PosInf | NegInf | NaN

definition round_half_even :: "rat \<Rightarrow> nat" where
  "round_half_even q =
     (let f = nat \<lfloor>q\<rfloor>; r = q - of_nat f
      in if r < 1 / 2 then f else if 1 / 2 < r then f + 1 else if even f then f else f + 1)"

fun fmt_f2 :: "float64 \<Rightarrow> string" where
  "fmt_f2 (Finite x) =
     (let n = round_half_even (\<bar>x\<bar> * 100)
      in (if x < 0 then [CHR ''-''] else []) @ decimal (n div 100) @ [CHR ''.''] @
         [digit_char (n div 10 mod 10), digit_char (n mod 10)])"
| "fmt_f2 PosInf = ''+Inf''"
| "fmt_f2 NegInf = ''-Inf''"
| "fmt_f2 NaN = ''NaN''"

subsection \<open>The session, its collaborators and what it does to them\<close>

record Inbound =
  Tag :: string
  Total :: int64

text \<open>
  The updates of the Telegram client, with the fields the service reads. A message
  holds the id of its chat. A callback holds a pointer to the message its button was
  attached to, which the client leaves \<^verbatim>\<open>nil\<close> (\<open>None\<close>) when Telegram sends none, as for a
  button of an inline-mode message.
\<close>

record Message =
  Message_Chat_ID :: int64
  Message_Text :: string

record CallbackQuery =
  CallbackQuery_ID :: string
  CallbackQuery_Message :: "Message option"
  CallbackQuery_Data :: string

record Update =
  Update_Message :: "Message option"
  Update_CallbackQuery :: "CallbackQuery option"

datatype InlineKeyboardButton = NewInlineKeyboardButtonData string string

type_synonym InlineKeyboardMarkup = "InlineKeyboardButton list list"

datatype Job = sendDailyReport_func

text \<open>
  Every call the service makes to a collaborator (the Telegram client, the cron library,
  the web server, the inbound service, the logger) is an event, recorded with its
  arguments and with the error or value the collaborator returned.
\<close>

datatype event =
    NewBotAPI string "string option"
  | Send int64 string "InlineKeyboardMarkup option" "string option"
  | SetMyCommands "(string \<times> string) list" "string option"
  | AnswerCallback string string "string option"
  | GetUpdatesChan nat nat
  | StopReceivingUpdates
  | CronAddFunc string Job nat "string option"
  | CronStart
  | CronStop
  | WebServerStop "string option"
  | WebServerStart "string option"
  | GetAllInbounds "string + Inbound list"
  | ClearTraffic "string option"
  | LogInfo "string list"
  | LogError "string list"

text \<open>
  The environment of a run: the settings in force (the service reads them afresh at every
  call and keeps no copy), and what each collaborator answers to a call, which may depend
  on everything that happened before (the events so far). \<open>FormatTraffic\<close> is
  \<^verbatim>\<open>common.FormatTraffic\<close> and \<open>Now_RFC1123\<close> is \<^verbatim>\<open>time.Now().Format(time.RFC1123)\<close>.
  The web server that \<^verbatim>\<open>global.GetWebServer()\<close> returns is taken to be set.
  \<open>Parse_rest_err\<close> is what the parser of the cron library answers where this model does
  not decide it (see \<open>standardParser_err\<close>).
\<close>

record Env =
  GetTgbotEnabled :: bool
  GetTgBotToken :: string
  GetTgBotChatId :: string
  GetTgbotRuntime :: string
  NewBotAPI_err :: "event list \<Rightarrow> string option"
  Send_err :: "event list \<Rightarrow> string option"
  Request_err :: "event list \<Rightarrow> string option"
  Parse_rest_err :: "string \<Rightarrow> string option"
  WebServer_Stop_err :: "event list \<Rightarrow> string option"
  WebServer_Start_err :: "event list \<Rightarrow> string option"
  GetAllInbounds_result :: "event list \<Rightarrow> string + Inbound list"
  ClearTraffic_err :: "event list \<Rightarrow> string option"
  FormatTraffic :: "int64 \<Rightarrow> string"
  Now_RFC1123 :: "event list \<Rightarrow> string"

text \<open>
  The struct \<^verbatim>\<open>Tgbot\<close>: the two pointers (\<open>None\<close> is \<^verbatim>\<open>nil\<close>), the stop flag and the
  job identifier. The four service handles of the struct hold no state and are part of
  the environment. \<open>trace\<close> is not a field of the struct: it is the list of events of
  the run so far.
\<close>

text \<open>
  The bot handle: \<open>BotAPI token\<close> is the handle as \<^verbatim>\<open>tgbotapi.NewBotAPI(token)\<close> returns it,
  \<open>BotAPI_shutdown token\<close> is the same handle after \<^verbatim>\<open>StopReceivingUpdates\<close> has closed its
  shutdown channel. \<^verbatim>\<open>StopReceivingUpdates\<close> closes the channel without a test, and closing
  a closed channel panics.
\<close>

datatype BotAPI = BotAPI string | BotAPI_shutdown string

datatype Cron = Cron

record Tgbot =
  bot' :: "BotAPI option"
  cron :: "Cron option"
  stopping :: bool
  cronId :: nat
  trace :: "event list"

definition GetTgbot :: Tgbot where
  "GetTgbot = \<lparr>bot' = None, cron = Some Cron, stopping = False, cronId = 0, trace = []\<rparr>"

text \<open>
  A method returns, or a \<^verbatim>\<open>nil\<close> pointer is dereferenced and the goroutine panics; each
  with the session at that moment.
\<close>

datatype outcome = Done Tgbot | Panic Tgbot

fun andThen :: "outcome \<Rightarrow> (Tgbot \<Rightarrow> outcome) \<Rightarrow> outcome" where
  "andThen (Done t) f = f t"
| "andThen (Panic t) f = Panic t"

definition emit :: "event \<Rightarrow> Tgbot \<Rightarrow> Tgbot" where
  "emit e t = t\<lparr>trace := trace t @ [e]\<rparr>"

subsection \<open>The allow-list\<close>

text \<open>\<^verbatim>\<open>checkAdmin\<close>: the loop over the pieces of the configured string, leaving at the
  first piece that parses to the chat id.\<close>

fun checkAdmin_loop :: "string list \<Rightarrow> int64 \<Rightarrow> bool" where
  "checkAdmin_loop [] chatID = False"
| "checkAdmin_loop (tok # toks) chatID =
     (if tok = [] then checkAdmin_loop toks chatID
      else (case ParseInt tok of
              (cid, err) \<Rightarrow>
                if err = None \<and> cid = chatID then True
                else checkAdmin_loop toks chatID))"

definition checkAdmin :: "Env \<Rightarrow> int64 \<Rightarrow> bool" where
  "checkAdmin env chatID = checkAdmin_loop (Split (GetTgBotChatId env) CHR '','') chatID"

text \<open>
  The allow-list as the specification describes it: the configuration string split on
  commas, each non-empty entry parsed as a 64-bit integer, the entries that do not parse
  left out.
\<close>

definition AdminAllowList :: "string \<Rightarrow> int64 list" where
  "AdminAllowList s =
     map (\<lambda>tok. fst (ParseInt tok))
       (filter (\<lambda>tok. tok \<noteq> [] \<and> snd (ParseInt tok) = None) (Split s CHR '',''))"

text \<open>
  What a piece of the configured string denotes, read as a decimal numeral with an
  optional sign: its integer value, or nothing when it is not such a numeral. This is
  the mathematical reading the parser is compared with.
\<close>

definition is_digit :: "char \<Rightarrow> bool" where
  "is_digit c = (48 \<le> (of_char c :: nat) \<and> (of_char c :: nat) \<le> 57)"

definition digits_value :: "nat \<Rightarrow> string \<Rightarrow> nat" where
  "digits_value n ds = foldl (\<lambda>a c. a * 10 + (of_char c - 48)) n ds"

definition numeral_value :: "string \<Rightarrow> int option" where
  "numeral_value s =
     (case s of
        [] \<Rightarrow> None
      | c # cs \<Rightarrow>
          (let ds = (if c = CHR ''+'' \<or> c = CHR ''-'' then cs else s)
           in if ds = [] \<or> \<not> list_all is_digit ds then None
              else Some (if c = CHR ''-'' then - int (digits_value 0 ds) else int (digits_value 0 ds))))"

subsection \<open>Sending\<close>

definition sendMsg :: "Env \<Rightarrow> int64 \<Rightarrow> string \<Rightarrow> Tgbot \<Rightarrow> outcome" where
  "sendMsg env chatID text t =
     (case bot' t of
        None \<Rightarrow> Panic t
      | Some b \<Rightarrow>
          (let err = Send_err env (trace t);
               t1 = emit (Send chatID text None err) t
           in case err of
                Some e \<Rightarrow> Done (emit (LogError [''Failed to send message:'', e]) t1)
              | None \<Rightarrow> Done t1))"

definition menuKeyboard :: InlineKeyboardMarkup where
  "menuKeyboard =
     [[NewInlineKeyboardButtonData ''Functions'' ''functions'',
       NewInlineKeyboardButtonData ''Status'' ''status''],
      [NewInlineKeyboardButtonData ''Restart'' ''restart'',
       NewInlineKeyboardButtonData ''Clear All'' ''clearall''],
      [NewInlineKeyboardButtonData ''Help'' ''help'']]"

definition showMenu :: "Env \<Rightarrow> int64 \<Rightarrow> Tgbot \<Rightarrow> outcome" where
  "showMenu env chatID t =
     (case bot' t of
        None \<Rightarrow> Panic t
      | Some b \<Rightarrow>
          (let err = Send_err env (trace t);
               t1 = emit (Send chatID ''Select an option:'' (Some menuKeyboard) err) t
           in case err of
                Some e \<Rightarrow> Done (emit (LogError [''Failed to send menu:'', e]) t1)
              | None \<Rightarrow> Done t1))"

definition setCommandMenu :: "Env \<Rightarrow> Tgbot \<Rightarrow> outcome" where
  "setCommandMenu env t =
     (case bot' t of
        None \<Rightarrow> Panic t
      | Some b \<Rightarrow>
          (let commands = [(''/start'', ''Start the bot''), (''/menu'', ''Show available options'')];
               err = Request_err env (trace t);
               t1 = emit (SetMyCommands commands err) t
           in case err of
                Some e \<Rightarrow> Done (emit (LogError [''Failed to set command menu:'', e]) t1)
              | None \<Rightarrow> Done (emit (LogInfo [''Telegram bot command menu set successfully.'']) t1)))"

subsection \<open>The handlers of the callback actions\<close>

definition getCPUUsage :: float64 where
  "getCPUUsage = Finite (91 / 2)"

definition sendStatus :: "Env \<Rightarrow> int64 \<Rightarrow> Tgbot \<Rightarrow> outcome" where
  "sendStatus env chatID t =
     (let r = GetAllInbounds_result env (trace t);
          t1 = emit (GetAllInbounds r) t
      in case r of
           Inl e \<Rightarrow> sendMsg env chatID (''Failed to get status: '' @ e) t1
         | Inr inbounds \<Rightarrow>
             (let statusMsg =
                    foldl (\<lambda>s inbound. s @ ''Inbound '' @ Tag inbound @ '': '' @
                                         FormatTraffic env (Total inbound) @ ''\<newline>'')
                      ''System Status:\<newline>'' inbounds;
                  cpuPercent = getCPUUsage;
                  statusMsg2 = statusMsg @ ''CPU Usage: '' @ fmt_f2 cpuPercent @ ''%\<newline>''
              in sendMsg env chatID statusMsg2 t1))"

definition restartServer :: "Env \<Rightarrow> int64 \<Rightarrow> Tgbot \<Rightarrow> outcome" where
  "restartServer env chatID t =
     andThen (sendMsg env chatID ''Restarting 3X-UI...'' t) (\<lambda>t1.
       let err = WebServer_Stop_err env (trace t1);
           t2 = emit (WebServerStop err) t1
       in case err of
            Some e \<Rightarrow> sendMsg env chatID (''Failed to stop server: '' @ e) t2
          | None \<Rightarrow>
              (let err2 = WebServer_Start_err env (trace t2);
                   t3 = emit (WebServerStart err2) t2
               in case err2 of
                    Some e \<Rightarrow> sendMsg env chatID (''Failed to start server: '' @ e) t3
                  | None \<Rightarrow> sendMsg env chatID ''3X-UI restarted successfully.'' t3))"

definition clearAll :: "Env \<Rightarrow> int64 \<Rightarrow> Tgbot \<Rightarrow> outcome" where
  "clearAll env chatID t =
     andThen (sendMsg env chatID ''Clearing all data...'' t) (\<lambda>t1.
       let err = ClearTraffic_err env (trace t1);
           t2 = emit (ClearTraffic err) t1
       in case err of
            Some e \<Rightarrow> sendMsg env chatID (''Failed to clear data: '' @ e) t2
          | None \<Rightarrow> sendMsg env chatID ''All data cleared successfully.'' t2)"

subsection \<open>The two routers\<close>

definition handleMessage :: "Env \<Rightarrow> Message \<Rightarrow> Tgbot \<Rightarrow> outcome" where
  "handleMessage env msg t =
     (if \<not> checkAdmin env (Message_Chat_ID msg)
      then sendMsg env (Message_Chat_ID msg) ''You are not authorized to use this bot.'' t
      else if Message_Text msg = ''/start''
      then sendMsg env (Message_Chat_ID msg) ''Welcome to 3X-UI Bot! Use /menu to see options.'' t
      else if Message_Text msg = ''/menu''
      then showMenu env (Message_Chat_ID msg) t
      else sendMsg env (Message_Chat_ID msg) ''Unknown command. Use /menu to see options.'' t)"

definition handleCallback :: "Env \<Rightarrow> CallbackQuery \<Rightarrow> Tgbot \<Rightarrow> outcome" where
  "handleCallback env callback t =
     (case CallbackQuery_Message callback of
        None \<Rightarrow> Panic t
      | Some message \<Rightarrow>
          (let chatID = Message_Chat_ID message;
               dat = CallbackQuery_Data callback
           in andThen
                (if dat = ''functions''
                 then sendMsg env chatID
                        ''Available functions:\<newline>- Traffic stats\<newline>- User management\<newline>(to be expanded)'' t
                 else if dat = ''status'' then sendStatus env chatID t
                 else if dat = ''restart'' then restartServer env chatID t
                 else if dat = ''clearall'' then clearAll env chatID t
                 else if dat = ''help''
                 then sendMsg env chatID
                        ''Help:\<newline>/menu - Show options\<newline>Contact admin for more info.'' t
                 else sendMsg env chatID ''Unknown option.'' t)
                (\<lambda>t1. case bot' t1 of
                         None \<Rightarrow> Panic t1
                       | Some b \<Rightarrow>
                           Done (emit (AnswerCallback (CallbackQuery_ID callback) []
                                         (Request_err env (trace t1))) t1))))"

subsection \<open>The scheduler and the notifications\<close>

text \<open>The loop shared, word for word, by the daily report and the four notifications:
  every piece of the configured string that parses is sent the text.\<close>

fun broadcast_loop :: "Env \<Rightarrow> string list \<Rightarrow> string \<Rightarrow> Tgbot \<Rightarrow> outcome" where
  "broadcast_loop env [] msg t = Done t"
| "broadcast_loop env (chatIDStr # rest) msg t =
     (case ParseInt chatIDStr of
        (chatID, err) \<Rightarrow>
          if err \<noteq> None then broadcast_loop env rest msg t
          else andThen (sendMsg env chatID msg t) (broadcast_loop env rest msg))"

definition sendDailyReport :: "Env \<Rightarrow> Tgbot \<Rightarrow> outcome" where
  "sendDailyReport env t =
     (let chatIDs = GetTgBotChatId env;
          r = GetAllInbounds_result env (trace t);
          t1 = emit (GetAllInbounds r) t
      in case r of
           Inl e \<Rightarrow> Done (emit (LogError [''Failed to get inbounds for report:'', e]) t1)
         | Inr inbounds \<Rightarrow>
             (let report =
                    foldl (\<lambda>s inbound. s @ Tag inbound @ '': '' @
                                         FormatTraffic env (Total inbound) @ ''\<newline>'')
                      ''Daily Traffic Report:\<newline>'' inbounds
              in broadcast_loop env (Split chatIDs CHR '','') report t1))"

text \<open>
  The cron library (robfig/cron v3) as the session uses it. \<^verbatim>\<open>GetTgbot\<close> builds the cron
  with \<^verbatim>\<open>cron.New()\<close> and no option, so \<^verbatim>\<open>AddFunc\<close> parses with the standard parser: an
  empty expression is an error; an expression that is neither a descriptor (\<open>@...\<close>) nor
  prefixed by a time zone is split into fields at white space (\<^verbatim>\<open>strings.Fields\<close>, here
  on ASCII white space), and
  anything but five fields is an error, with the text written out below. What the
  parser answers otherwise (descriptors, time zones, the contents of five fields) is
  \<open>Parse_rest_err\<close> of the environment. An expression that parses gets the next entry
  identifier, counted from 1; an error comes with the identifier 0.
\<close>

definition is_space :: "char \<Rightarrow> bool" where
  "is_space c = ((of_char c :: nat) \<in> {9, 10, 11, 12, 13, 32})"

fun Fields_from :: "string \<Rightarrow> string \<Rightarrow> string list" where
  "Fields_from cur [] = (if cur = [] then [] else [cur])"
| "Fields_from cur (c # cs) =
     (if is_space c then (if cur = [] then Fields_from [] cs else cur # Fields_from [] cs)
      else Fields_from (cur @ [c]) cs)"

definition Fields :: "string \<Rightarrow> string list" where
  "Fields s = Fields_from [] s"

fun join_space :: "string list \<Rightarrow> string" where
  "join_space [] = []"
| "join_space [x] = x"
| "join_space (x # y # ys) = x @ '' '' @ join_space (y # ys)"

definition HasPrefix :: "string \<Rightarrow> string \<Rightarrow> bool" where
  "HasPrefix s prefix = (take (length prefix) s = prefix)"

definition standardParser_err :: "Env \<Rightarrow> string \<Rightarrow> string option" where
  "standardParser_err env spec =
     (if spec = [] then Some ''empty spec string''
      else if HasPrefix spec ''TZ='' \<or> HasPrefix spec ''CRON_TZ='' \<or> HasPrefix spec ''@''
      then Parse_rest_err env spec
      else if length (Fields spec) \<noteq> 5
      then Some (''expected exactly 5 fields, found '' @ fmt_d (int (length (Fields spec))) @
                 '': ['' @ join_space (Fields spec) @ '']'')
      else Parse_rest_err env spec)"

fun is_entry :: "event \<Rightarrow> bool" where
  "is_entry (CronAddFunc spec cmd entry None) = True"
| "is_entry ev = False"

definition cron_AddFunc :: "Env \<Rightarrow> event list \<Rightarrow> string \<Rightarrow> nat \<times> string option" where
  "cron_AddFunc env tr spec =
     (case standardParser_err env spec of
        Some e \<Rightarrow> (0, Some e)
      | None \<Rightarrow> (Suc (length (filter is_entry tr)), None))"

definition startCron :: "Env \<Rightarrow> Tgbot \<Rightarrow> outcome" where
  "startCron env t =
     (let runtime0 = GetTgbotRuntime env;
          runtime = (if runtime0 = [] then ''0 0 8 * * *'' else runtime0)
      in case cron t of
           None \<Rightarrow> Panic t
         | Some c \<Rightarrow>
             (let r = cron_AddFunc env (trace t) runtime;
                  t1 = emit (CronAddFunc runtime sendDailyReport_func (fst r) (snd r)) t
              in case snd r of
                   Some e \<Rightarrow> Done (emit (LogError [''Failed to add cron job:'', e]) t1)
                 | None \<Rightarrow>
                     Done (emit (LogInfo [''Telegram bot cron started with schedule:'', runtime])
                            (emit CronStart (t1\<lparr>cronId := fst r\<rparr>)))))"

definition NotifyLogin :: "Env \<Rightarrow> string \<Rightarrow> string \<Rightarrow> Tgbot \<Rightarrow> outcome" where
  "NotifyLogin env username ip t =
     (if \<not> GetTgbotEnabled env \<or> bot' t = None then Done t
      else
        (let msg = ''User '' @ username @ '' logged in from IP '' @ ip @ '' at '' @
                   Now_RFC1123 env (trace t);
             chatIDs = GetTgBotChatId env
         in broadcast_loop env (Split chatIDs CHR '','') msg t))"

definition NotifyTrafficLimit :: "Env \<Rightarrow> Inbound \<Rightarrow> Tgbot \<Rightarrow> outcome" where
  "NotifyTrafficLimit env inbound t =
     (if \<not> GetTgbotEnabled env \<or> bot' t = None then Done t
      else
        (let msg = ''Inbound '' @ Tag inbound @ '' has reached traffic limit: '' @
                   FormatTraffic env (Total inbound);
             chatIDs = GetTgBotChatId env
         in broadcast_loop env (Split chatIDs CHR '','') msg t))"

definition NotifyExpiration :: "Env \<Rightarrow> Inbound \<Rightarrow> int64 \<Rightarrow> Tgbot \<Rightarrow> outcome" where
  "NotifyExpiration env inbound daysLeft t =
     (if \<not> GetTgbotEnabled env \<or> bot' t = None then Done t
      else
        (let msg = ''Inbound '' @ Tag inbound @ '' will expire in '' @ fmt_d (sint daysLeft) @
                   '' days.'';
             chatIDs = GetTgBotChatId env
         in broadcast_loop env (Split chatIDs CHR '','') msg t))"

definition NotifyCPULoad :: "Env \<Rightarrow> float64 \<Rightarrow> Tgbot \<Rightarrow> outcome" where
  "NotifyCPULoad env usage t =
     (if \<not> GetTgbotEnabled env \<or> bot' t = None then Done t
      else
        (let msg = ''CPU load has exceeded threshold: '' @ fmt_f2 usage @ ''%'';
             chatIDs = GetTgBotChatId env
         in broadcast_loop env (Split chatIDs CHR '','') msg t))"

subsection \<open>Start and Stop\<close>

text \<open>
  \<^verbatim>\<open>Start\<close> hands the scheduler and every update to a goroutine of its own. The model runs
  each of them to its end at the point where it is launched, one of the orders the
  goroutines can take; \<open>updates\<close> is what the update channel delivers until it is closed.
\<close>

fun updates_loop :: "Env \<Rightarrow> Update list \<Rightarrow> Tgbot \<Rightarrow> outcome" where
  "updates_loop env [] t = Done t"
| "updates_loop env (update # updates) t =
     (if stopping t then Done t
      else andThen
             (case Update_Message update of
                Some msg \<Rightarrow> handleMessage env msg t
              | None \<Rightarrow>
                  (case Update_CallbackQuery update of
                     Some callback \<Rightarrow> handleCallback env callback t
                   | None \<Rightarrow> Done t))
             (updates_loop env updates))"

definition Start :: "Env \<Rightarrow> Update list \<Rightarrow> Tgbot \<Rightarrow> outcome" where
  "Start env updates t =
     (if \<not> GetTgbotEnabled env
      then Done (emit (LogInfo [''Telegram bot is disabled in settings.'']) t)
      else
        (let token = GetTgBotToken env;
             err = NewBotAPI_err env (trace t);
             t1 = emit (NewBotAPI token err) t
         in case err of
              Some e \<Rightarrow> Done (emit (LogError [''Failed to initialize Telegram bot:'', e]) t1)
            | None \<Rightarrow>
                andThen (setCommandMenu env
                           (emit (LogInfo [''Telegram bot initialized successfully.''])
                              (t1\<lparr>bot' := Some (BotAPI token)\<rparr>)))
                  (\<lambda>t2. andThen (startCron env t2)
                     (\<lambda>t3. updates_loop env updates (emit (GetUpdatesChan 0 60) t3)))))"

text \<open>
  \<^verbatim>\<open>Stop\<close>. The struct keeps its bot handle after a stop (nothing resets \<^verbatim>\<open>t.bot\<close>), so a
  later \<^verbatim>\<open>Stop\<close> calls \<^verbatim>\<open>StopReceivingUpdates\<close> on the same handle again, and the close of
  its closed channel panics. \<^verbatim>\<open>cron.Stop()\<close> can be called on a cron that is not running.
\<close>

definition Stop_cron :: "Tgbot \<Rightarrow> outcome" where
  "Stop_cron t =
     (let t3 = (if cron t \<noteq> None then emit CronStop t else t)
      in Done (emit (LogInfo [''Telegram bot stopped.'']) t3))"

definition Stop :: "Tgbot \<Rightarrow> outcome" where
  "Stop t =
     (let t1 = t\<lparr>stopping := True\<rparr>
      in case bot' t1 of
           None \<Rightarrow> Stop_cron t1
         | Some (BotAPI token) \<Rightarrow>
             Stop_cron (emit StopReceivingUpdates (t1\<lparr>bot' := Some (BotAPI_shutdown token)\<rparr>))
         | Some (BotAPI_shutdown token) \<Rightarrow> Panic (emit StopReceivingUpdates t1))"

subsection \<open>Reading a trace\<close>

text \<open>The messages handed to the Telegram client, in order, whatever it answered.\<close>

fun sends :: "event list \<Rightarrow> (int64 \<times> string \<times> InlineKeyboardMarkup option) list" where
  "sends [] = []"
| "sends (Send chatID text kb err # evs) = (chatID, text, kb) # sends evs"
| "sends (ev # evs) = sends evs"

fun is_log :: "event \<Rightarrow> bool" where
  "is_log (LogInfo l) = True"
| "is_log (LogError l) = True"
| "is_log ev = False"

fun is_AnswerCallback :: "event \<Rightarrow> bool" where
  "is_AnswerCallback (AnswerCallback i text err) = True"
| "is_AnswerCallback ev = False"

text \<open>The events of a handler that replied to the chat \<open>c\<close>: at least one message sent,
  every message to that chat, and no acknowledgement of a callback.\<close>

definition replied :: "int64 \<Rightarrow> event list \<Rightarrow> bool" where
  "replied c evs =
     (filter is_AnswerCallback evs = [] \<and> sends evs \<noteq> [] \<and>
      list_all (\<lambda>s. fst s = c) (sends evs))"

text \<open>The events that are calls to a collaborator other than the logger.\<close>

definition calls :: "event list \<Rightarrow> event list" where
  "calls evs = filter (\<lambda>ev. \<not> is_log ev) evs"

fun returns :: "outcome \<Rightarrow> bool" where
  "returns (Done t) = True"
| "returns (Panic t) = False"

fun state_of :: "outcome \<Rightarrow> Tgbot" where
  "state_of (Done t) = t"
| "state_of (Panic t) = t"

text \<open>\<open>ext t evs\<close> is the session \<open>t\<close> with the struct untouched and the events \<open>evs\<close>
  added to the run.\<close>

definition ext :: "Tgbot \<Rightarrow> event list \<Rightarrow> Tgbot" where
  "ext t evs = t\<lparr>trace := trace t @ evs\<rparr>"

text \<open>The log line of \<^verbatim>\<open>sendMsg\<close> after a send that returned \<open>err\<close>.\<close>

definition send_log :: "string option \<Rightarrow> event list" where
  "send_log err = (case err of None \<Rightarrow> [] | Some e \<Rightarrow> [LogError [''Failed to send message:'', e]])"

text \<open>The fields of the struct, without the events of the run.\<close>

definition session_of :: "Tgbot \<Rightarrow> BotAPI option \<times> Cron option \<times> bool \<times> nat" where
  "session_of t = (bot' t, cron t, stopping t, cronId t)"

primrec Stop_times :: "nat \<Rightarrow> Tgbot \<Rightarrow> outcome" where
  "Stop_times 0 t = Done t"
| "Stop_times (Suc n) t = andThen (Stop t) (Stop_times n)"

fun button_text :: "InlineKeyboardButton \<Rightarrow> string" where
  "button_text (NewInlineKeyboardButtonData text dat) = text"

fun button_data :: "InlineKeyboardButton \<Rightarrow> string" where
  "button_data (NewInlineKeyboardButtonData text dat) = dat"

text \<open>
  What a broadcast of \<open>msg\<close> from the session \<open>t\<close> has to end in: the method returned, the
  struct is untouched, and the events added are, for every entry of the allow-list in
  order, one send of the text to that chat with whatever the client answered, followed
  by the log line of the failure when it answered with an error. Nothing else happens.
\<close>

definition delivered :: "Env \<Rightarrow> Tgbot \<Rightarrow> string \<Rightarrow> outcome \<Rightarrow> bool" where
  "delivered env t msg out =
     (\<exists>rs. length rs = length (AdminAllowList (GetTgBotChatId env)) \<and>
        out = Done (ext t (concat (map (\<lambda>(c, r). Send c msg None r # send_log r)
                                    (zip (AdminAllowList (GetTgBotChatId env)) rs)))))"

subsection \<open>A concrete environment and concrete sessions\<close>

text \<open>An environment where the bot is enabled, the allow-list is \<open>111,abc,222\<close>, no
  schedule is configured, and the Telegram client, the web server and the inbound
  service succeed at every call.\<close>

definition env_up :: Env where
  "env_up =
     \<lparr>GetTgbotEnabled = True,
      GetTgBotToken = ''token'',
      GetTgBotChatId = ''111,abc,222'',
      GetTgbotRuntime = [],
      NewBotAPI_err = (\<lambda>tr. None),
      Send_err = (\<lambda>tr. None),
      Request_err = (\<lambda>tr. None),
      Parse_rest_err = (\<lambda>spec. None),
      WebServer_Stop_err = (\<lambda>tr. None),
      WebServer_Start_err = (\<lambda>tr. None),
      GetAllInbounds_result = (\<lambda>tr. Inr [\<lparr>Tag = ''vmess-1'', Total = 1048576\<rparr>]),
      ClearTraffic_err = (\<lambda>tr. None),
      FormatTraffic = (\<lambda>n. ''1.00 MB''),
      Now_RFC1123 = (\<lambda>tr. ''Sun, 01 Nov 2026 08:00:00 UTC'')\<rparr>"

text \<open>The session right after \<^verbatim>\<open>GetTgbot\<close> and \<^verbatim>\<open>Start\<close> in \<open>env_up\<close>, before any update:
  the bot handle is set and the update channel is open; the registration of the daily
  job has failed and was logged.\<close>

definition running_session :: Tgbot where
  "running_session =
     \<lparr>bot' = Some (BotAPI ''token''), cron = Some Cron, stopping = False, cronId = 0,
      trace =
        [NewBotAPI ''token'' None,
         LogInfo [''Telegram bot initialized successfully.''],
         SetMyCommands [(''/start'', ''Start the bot''), (''/menu'', ''Show available options'')] None,
         LogInfo [''Telegram bot command menu set successfully.''],
         CronAddFunc ''0 0 8 * * *'' sendDailyReport_func 0
           (Some ''expected exactly 5 fields, found 6: [0 0 8 * * *]''),
         LogError [''Failed to add cron job:'', ''expected exactly 5 fields, found 6: [0 0 8 * * *]''],
         GetUpdatesChan 0 60]\<rparr>"

text \<open>A session with a live bot handle and no event yet.\<close>

definition live_session :: Tgbot where
  "live_session =
     \<lparr>bot' = Some (BotAPI ''token''), cron = Some Cron, stopping = False, cronId = 0, trace = []\<rparr>"

section \<open>Properties\<close>

subsection \<open>The authorization check\<close>

lemma checkAdmin_loop_iff:
  "checkAdmin_loop toks c \<longleftrightarrow>
     c \<in> set (map (\<lambda>tok. fst (ParseInt tok))
                (filter (\<lambda>tok. tok \<noteq> [] \<and> snd (ParseInt tok) = None) toks))"
  by (induction toks) (auto split: prod.splits)

lemma ParseInt_111: "ParseInt ''111'' = (111, None)"
  by (simp add: ParseInt_def ParseUint_def maxUint64_def lower_def)

lemma ParseInt_222: "ParseInt ''222'' = (222, None)"
  by (simp add: ParseInt_def ParseUint_def maxUint64_def lower_def)

lemma ParseInt_abc: "ParseInt ''abc'' = (0, Some ErrSyntax)"
  by (simp add: ParseInt_def ParseUint_def maxUint64_def lower_def)

lemma Split_scenario: "Split ''111,abc,222'' CHR '','' = [''111'', ''abc'', ''222'']"
  by simp

lemma AdminAllowList_scenario: "AdminAllowList ''111,abc,222'' = [111, 222]"
  by (simp add: AdminAllowList_def ParseInt_111 ParseInt_222 ParseInt_abc)

subsection \<open>The parser against the decimal reading\<close>

lemma digits_value_simps [simp]:
  "digits_value n [] = n"
  "digits_value n (c # cs) = digits_value (n * 10 + (of_char c - 48)) cs"
  by (simp_all add: digits_value_def)

lemma digits_value_ge: "n \<le> digits_value n ds"
proof (induction ds arbitrary: n)
  case Nil
  show ?case by simp
next
  case (Cons c cs)
  have "n \<le> n * 10 + (of_char c - 48)" by simp
  also have "\<dots> \<le> digits_value (n * 10 + (of_char c - 48)) cs" by (rule Cons.IH)
  finally show ?case by simp
qed

lemma lower_not_digit: "48 \<le> b \<and> b \<le> 57 \<or> \<not> (lower b - 97 + 10 < 10)"
  by (simp add: lower_def)

lemma ParseUint_loop_digit:
  assumes "is_digit c"
  shows "ParseUint_loop (c # cs) n =
     (if n \<ge> maxUint64 div 10 + 1 then (maxUint64, Some ErrRange)
      else if n * 10 + (of_char c - 48) > maxUint64 then (maxUint64, Some ErrRange)
      else ParseUint_loop cs (n * 10 + (of_char c - 48)))"
proof -
  have c1: "(48 \<le> (of_char c :: nat) \<and> (of_char c :: nat) \<le> 57) = True"
    using assms by (simp add: is_digit_def)
  have c2: "(10 \<le> (of_char c :: nat) - 48) = False"
    using assms unfolding is_digit_def by arith
  show ?thesis
    by (simp only: ParseUint_loop.simps Let_def c1 c2 if_True if_False)
qed

lemma ParseUint_loop_nondigit:
  assumes "\<not> is_digit c"
  shows "ParseUint_loop (c # cs) n = (0, Some ErrSyntax)"
proof -
  have c1: "(48 \<le> (of_char c :: nat) \<and> (of_char c :: nat) \<le> 57) = False"
    using assms by (simp add: is_digit_def)
  have c2: "(10 \<le> lower (of_char c) - 97 + (10 :: nat)) = True"
    by simp
  show ?thesis
    by (simp only: ParseUint_loop.simps Let_def c1 c2 if_True if_False if_cancel)
qed

declare ParseUint_loop.simps(2) [simp del]

lemma ParseUint_loop_sound:
  "ParseUint_loop s n = (m, None) \<Longrightarrow> list_all is_digit s \<and> m = digits_value n s"
proof (induction s arbitrary: n)
  case Nil
  then show ?case by simp
next
  case (Cons c cs)
  show ?case
  proof (cases "is_digit c")
    case False
    with Cons.prems show ?thesis by (simp add: ParseUint_loop_nondigit)
  next
    case True
    with Cons.prems have "ParseUint_loop cs (n * 10 + (of_char c - 48)) = (m, None)"
      by (simp add: ParseUint_loop_digit split: if_splits)
    from Cons.IH [OF this] True show ?thesis by simp
  qed
qed

lemma ParseUint_loop_bound:
  "ParseUint_loop s n = (m, err) \<Longrightarrow> n \<le> maxUint64 \<Longrightarrow> m \<le> maxUint64"
proof (induction s arbitrary: n)
  case Nil
  then show ?case by simp
next
  case (Cons c cs)
  show ?case
  proof (cases "is_digit c")
    case False
    with Cons.prems show ?thesis by (simp add: ParseUint_loop_nondigit)
  next
    case True
    show ?thesis
    proof (cases "n \<ge> maxUint64 div 10 + 1 \<or> n * 10 + (of_char c - 48) > maxUint64")
      case True
      with \<open>is_digit c\<close> Cons.prems show ?thesis
        by (auto simp add: ParseUint_loop_digit split: if_splits)
    next
      case False
      with \<open>is_digit c\<close> Cons.prems
      have "ParseUint_loop cs (n * 10 + (of_char c - 48)) = (m, err)"
        by (simp add: ParseUint_loop_digit)
      from Cons.IH [OF this] False show ?thesis by simp
    qed
  qed
qed

lemma ParseUint_loop_range:
  "ParseUint_loop s n = (m, Some ErrRange) \<Longrightarrow> m = maxUint64"
proof (induction s arbitrary: n)
  case Nil
  then show ?case by simp
next
  case (Cons c cs)
  show ?case
  proof (cases "is_digit c")
    case False
    with Cons.prems show ?thesis by (simp add: ParseUint_loop_nondigit)
  next
    case True
    with Cons.prems Cons.IH show ?thesis
      by (auto simp add: ParseUint_loop_digit split: if_splits)
  qed
qed

lemma ParseUint_loop_complete:
  "list_all is_digit s \<Longrightarrow> digits_value n s \<le> maxUint64 \<Longrightarrow>
   ParseUint_loop s n = (digits_value n s, None)"
proof (induction s arbitrary: n)
  case Nil
  then show ?case by simp
next
  case (Cons c cs)
  let ?n1 = "n * 10 + (of_char c - 48)"
  have d: "is_digit c" and ds: "list_all is_digit cs" using Cons.prems(1) by simp_all
  have v: "digits_value ?n1 cs \<le> maxUint64" using Cons.prems(2) by simp
  have le: "?n1 \<le> maxUint64" using digits_value_ge [of ?n1 cs] v by linarith
  then have "n * 10 \<le> maxUint64" by linarith
  then have "n \<le> maxUint64 div 10" by (simp add: maxUint64_def)
  with le d Cons.IH [OF ds v] show ?case
    by (simp add: ParseUint_loop_digit)
qed


lemma sint_word_of_int_64:
  "- (2 ^ 63) \<le> k \<Longrightarrow> k < 2 ^ 63 \<Longrightarrow> sint (word_of_int k :: int64) = k"
  by (simp add: sint_sbintrunc' signed_take_bit_int_eq_self)

lemma sint_of_nat_64: "n < 2 ^ 63 \<Longrightarrow> sint (of_nat n :: int64) = int n"
proof -
  assume "n < 2 ^ 63"
  then have "int n < int (2 ^ 63)" by (rule iffD2 [OF of_nat_less_iff])
  then have "int n < 2 ^ 63" by simp
  then have "sint (word_of_int (int n) :: int64) = int n"
    by (intro sint_word_of_int_64) simp_all
  then show ?thesis by simp
qed

lemma sint_neg_of_nat_64: "n \<le> 2 ^ 63 \<Longrightarrow> sint (- of_nat n :: int64) = - int n"
proof -
  assume "n \<le> 2 ^ 63"
  then have "int n \<le> int (2 ^ 63)" by (rule iffD2 [OF of_nat_le_iff])
  then have "int n \<le> 2 ^ 63" by simp
  then have "sint (word_of_int (- int n) :: int64) = - int n"
    by (intro sint_word_of_int_64) simp_all
  then show ?thesis by simp
qed

lemma word_of_int_sint_64: "word_of_int (sint v) = (v :: int64)"
  by simp

lemma ParseUint_None:
  "ParseUint s = (un, None) \<longleftrightarrow>
     s \<noteq> [] \<and> list_all is_digit s \<and> un = digits_value 0 s \<and> digits_value 0 s \<le> maxUint64"
proof
  assume a: "ParseUint s = (un, None)"
  then have ne: "s \<noteq> []" by (auto simp: ParseUint_def split: if_splits)
  with a have l: "ParseUint_loop s 0 = (un, None)" by (simp add: ParseUint_def)
  from ParseUint_loop_sound [OF l] ParseUint_loop_bound [OF l] ne
  show "s \<noteq> [] \<and> list_all is_digit s \<and> un = digits_value 0 s \<and> digits_value 0 s \<le> maxUint64"
    by simp
next
  assume "s \<noteq> [] \<and> list_all is_digit s \<and> un = digits_value 0 s \<and> digits_value 0 s \<le> maxUint64"
  then show "ParseUint s = (un, None)"
    by (simp add: ParseUint_def ParseUint_loop_complete)
qed

lemma ParseUint_range: "ParseUint s = (un, Some ErrRange) \<Longrightarrow> un = maxUint64"
  by (auto simp: ParseUint_def split: if_splits dest: ParseUint_loop_range)

lemma ParseInt_Cons:
  "ParseInt (c # cs) =
     (let neg = (c = CHR ''-'');
          s1 = (if c = CHR ''+'' then cs else if c = CHR ''-'' then cs else c # cs);
          r = ParseUint s1;
          un = fst r;
          err = snd r
      in if err \<noteq> None \<and> err \<noteq> Some ErrRange then (0, err)
         else if \<not> neg \<and> un \<ge> 2 ^ 63 then (of_nat (2 ^ 63 - 1), Some ErrRange)
         else if neg \<and> un > 2 ^ 63 then (- of_nat (2 ^ 63), Some ErrRange)
         else (if neg then - of_nat un else of_nat un, None))"
  by (simp only: ParseInt_def list.simps(3) if_False list.sel)

lemma ParseInt_None:
  "ParseInt (c # cs) = (v, None) \<longleftrightarrow>
     (let neg = (c = CHR ''-''); ds = (if c = CHR ''+'' \<or> c = CHR ''-'' then cs else c # cs)
      in ds \<noteq> [] \<and> list_all is_digit ds \<and>
         (if neg then digits_value 0 ds \<le> 2 ^ 63 \<and> v = - of_nat (digits_value 0 ds)
          else digits_value 0 ds < 2 ^ 63 \<and> v = of_nat (digits_value 0 ds)))"
proof -
  define ds where "ds = (if c = CHR ''+'' then cs else if c = CHR ''-'' then cs else c # cs)"
  have ds': "(if c = CHR ''+'' \<or> c = CHR ''-'' then cs else c # cs) = ds"
    by (simp add: ds_def)
  obtain un err where r: "ParseUint ds = (un, err)" by (cases "ParseUint ds")
  show ?thesis
  proof (cases err)
    case None
    with r have "ds \<noteq> [] \<and> list_all is_digit ds \<and> un = digits_value 0 ds \<and> digits_value 0 ds \<le> maxUint64"
      by (simp add: ParseUint_None)
    with r None show ?thesis
      unfolding ParseInt_Cons Let_def ds' ds_def [symmetric]
      by (auto simp add: not_le not_less)
  next
    case (Some e)
    have no: "\<not> (ds \<noteq> [] \<and> list_all is_digit ds \<and> digits_value 0 ds \<le> 2 ^ 63)"
    proof
      assume a: "ds \<noteq> [] \<and> list_all is_digit ds \<and> digits_value 0 ds \<le> 2 ^ 63"
      then have "digits_value 0 ds \<le> maxUint64" by (simp add: maxUint64_def)
      with a have "ParseUint ds = (digits_value 0 ds, None)" by (simp add: ParseUint_None)
      with r Some show False by simp
    qed
    show ?thesis
    proof (cases e)
      case ErrSyntax
      with r Some no show ?thesis
        unfolding ParseInt_Cons Let_def ds' ds_def [symmetric]
        by auto
    next
      case ErrRange
      with r Some have "un = maxUint64" by (auto dest: ParseUint_range)
      with r Some ErrRange no show ?thesis
        unfolding ParseInt_Cons Let_def ds' ds_def [symmetric]
        by (auto simp add: maxUint64_def)
    qed
  qed
qed


lemma numeral_value_Nil [simp]: "numeral_value [] = None"
  by (simp add: numeral_value_def)

lemma ParseInt_iff_numeral:
  "ParseInt s = (v, None) \<longleftrightarrow> numeral_value s = Some (sint v)"
proof (cases s)
  case Nil
  then show ?thesis by (simp add: ParseInt_def)
next
  case (Cons c cs)
  define ds where "ds = (if c = CHR ''+'' \<or> c = CHR ''-'' then cs else c # cs)"
  let ?n = "digits_value 0 ds"
  have nv: "numeral_value (c # cs) =
      (if ds = [] \<or> \<not> list_all is_digit ds then None
       else Some (if c = CHR ''-'' then - int ?n else int ?n))"
    unfolding numeral_value_def ds_def by (simp add: Let_def)
  have pi: "ParseInt (c # cs) = (v, None) \<longleftrightarrow>
      ds \<noteq> [] \<and> list_all is_digit ds \<and>
      (if c = CHR ''-'' then ?n \<le> 2 ^ 63 \<and> v = - of_nat ?n
       else ?n < 2 ^ 63 \<and> v = of_nat ?n)"
    unfolding ParseInt_None ds_def by (simp add: Let_def)
  have pos: "(?n < 2 ^ 63 \<and> v = of_nat ?n) \<longleftrightarrow> int ?n = sint v"
  proof
    assume "?n < 2 ^ 63 \<and> v = of_nat ?n"
    then show "int ?n = sint v" by (simp add: sint_of_nat_64)
  next
    assume a: "int ?n = sint v"
    have "sint v < 2 ^ 63" using sint_lt [of v] by simp
    with a have "int ?n < int (2 ^ 63)" by simp
    then have lt: "?n < 2 ^ 63" by (rule iffD1 [OF of_nat_less_iff])
    have "v = word_of_int (sint v)" by simp
    also have "\<dots> = of_nat ?n" using a [symmetric] by simp
    finally show "?n < 2 ^ 63 \<and> v = of_nat ?n" using lt by simp
  qed
  have neg: "(?n \<le> 2 ^ 63 \<and> v = - of_nat ?n) \<longleftrightarrow> - int ?n = sint v"
  proof
    assume "?n \<le> 2 ^ 63 \<and> v = - of_nat ?n"
    then show "- int ?n = sint v" by (simp add: sint_neg_of_nat_64)
  next
    assume a: "- int ?n = sint v"
    have "- (2 ^ 63) \<le> sint v" using sint_ge [of v] by simp
    with a have "int ?n \<le> int (2 ^ 63)" by simp
    then have le: "?n \<le> 2 ^ 63" by (rule iffD1 [OF of_nat_le_iff])
    have "v = word_of_int (sint v)" by simp
    also have "\<dots> = - of_nat ?n" using a [symmetric] by simp
    finally show "?n \<le> 2 ^ 63 \<and> v = - of_nat ?n" using le by simp
  qed
  show ?thesis
    unfolding Cons nv pi using pos neg by auto
qed

lemma checkAdmin_loop_numeral:
  "checkAdmin_loop toks c \<longleftrightarrow> (\<exists>tok \<in> set toks. numeral_value tok = Some (sint c))"
proof (induction toks)
  case Nil
  show ?case by simp
next
  case (Cons tok toks)
  obtain v err where p: "ParseInt tok = (v, err)" by (cases "ParseInt tok")
  have "(err = None \<and> v = c) \<longleftrightarrow> numeral_value tok = Some (sint c)"
    using ParseInt_iff_numeral [of tok c] p by auto
  with Cons p show ?case by (cases "tok = []") auto
qed

subsection \<open>The authorization check, settled\<close>

text \<open>
  Claim C2. For every chat id and every configured string, \<open>checkAdmin\<close> is true exactly
  when one of the pieces between the commas is a decimal numeral whose value is the chat
  id, as integers; equivalently, when the chat id is one of the values of the allow-list,
  the non-empty pieces that \<open>ParseInt\<close> accepts. An empty piece and a piece that is not a
  numeral of a 64-bit integer contribute nothing, and \<open>checkAdmin\<close> is a total function:
  no piece makes it fail. With the string \<open>111,abc,222\<close> the ids 111 and 222 are
  authorized and 999 is not.
\<close>

theorem checkAdmin_iff_allow_list:
  "(checkAdmin env chatID \<longleftrightarrow>
      (\<exists>tok \<in> set (Split (GetTgBotChatId env) CHR '',''). numeral_value tok = Some (sint chatID))) \<and>
   (checkAdmin env chatID \<longleftrightarrow> chatID \<in> set (AdminAllowList (GetTgBotChatId env))) \<and>
   (GetTgBotChatId env = ''111,abc,222'' \<longrightarrow>
      checkAdmin env 111 \<and> checkAdmin env 222 \<and> \<not> checkAdmin env 999)"
proof -
  have iff: "\<And>c. checkAdmin env c \<longleftrightarrow> c \<in> set (AdminAllowList (GetTgBotChatId env))"
    unfolding checkAdmin_def AdminAllowList_def by (rule checkAdmin_loop_iff)
  have num: "checkAdmin env chatID \<longleftrightarrow>
      (\<exists>tok \<in> set (Split (GetTgBotChatId env) CHR '',''). numeral_value tok = Some (sint chatID))"
    unfolding checkAdmin_def by (rule checkAdmin_loop_numeral)
  have scen: "GetTgBotChatId env = ''111,abc,222'' \<longrightarrow>
      checkAdmin env 111 \<and> checkAdmin env 222 \<and> \<not> checkAdmin env 999"
    by (simp add: iff AdminAllowList_scenario)
  from num iff [of chatID] scen show ?thesis by blast
qed

theorem checkAdmin_iff_allow_list_witness:
  "GetTgBotChatId env_up = ''111,abc,222'' \<and>
   checkAdmin env_up 111 \<and> checkAdmin env_up 222 \<and> \<not> checkAdmin env_up 999 \<and>
   AdminAllowList (GetTgBotChatId env_up) = [111, 222] \<and>
   (\<exists>tok \<in> set (Split (GetTgBotChatId env_up) CHR '',''). numeral_value tok = Some (sint (111 :: int64)))"
  using checkAdmin_iff_allow_list [of env_up 111]
  by (simp add: env_up_def AdminAllowList_scenario numeral_value_def is_digit_def)

subsection \<open>Events of the senders\<close>

lemma ext_simps [simp]:
  "bot' (ext t evs) = bot' t" "cron (ext t evs) = cron t" "stopping (ext t evs) = stopping t"
  "cronId (ext t evs) = cronId t" "trace (ext t evs) = trace t @ evs"
  "ext (ext t evs) evs' = ext t (evs @ evs')" "ext t [] = t"
  by (simp_all add: ext_def)

lemma ext_inject [simp]: "ext t evs = ext t evs' \<longleftrightarrow> evs = evs'"
proof
  assume "ext t evs = ext t evs'"
  then have "trace (ext t evs) = trace (ext t evs')" by simp
  then show "evs = evs'" by simp
qed simp

lemma emit_ext: "emit e t = ext t [e]"
  by (simp add: emit_def ext_def)

lemma sends_append [simp]: "sends (xs @ ys) = sends xs @ sends ys"
  by (induction xs rule: sends.induct) simp_all

lemma calls_append [simp]: "calls (xs @ ys) = calls xs @ calls ys"
  by (simp add: calls_def)

lemma calls_Cons [simp]: "calls (e # evs) = (if is_log e then calls evs else e # calls evs)"
  by (simp add: calls_def)

lemma calls_Nil [simp]: "calls [] = []"
  by (simp add: calls_def)

lemma send_log_simps [simp]:
  "sends (send_log r) = []" "calls (send_log r) = []" "filter is_AnswerCallback (send_log r) = []"
  by (simp_all add: send_log_def split: option.splits)

lemma sendMsg_ext:
  "bot' t = Some b \<Longrightarrow>
   sendMsg env c txt t = Done (ext t (Send c txt None (Send_err env (trace t)) # send_log (Send_err env (trace t))))"
  by (simp add: sendMsg_def emit_ext send_log_def Let_def split: option.splits)

lemma sendMsg_nil: "bot' t = None \<Longrightarrow> sendMsg env c txt t = Panic t"
  by (simp add: sendMsg_def)

lemma showMenu_ext:
  "bot' t = Some b \<Longrightarrow>
   \<exists>r l. showMenu env c t = Done (ext t (Send c ''Select an option:'' (Some menuKeyboard) r # l)) \<and>
         sends l = [] \<and> calls l = []"
  by (simp add: showMenu_def emit_ext Let_def split: option.splits)

subsection \<open>The restart action\<close>

text \<open>
  Claim C7. On a session with a bot handle, \<open>restartServer\<close> returns, and its calls are, in
  this order: the announcement, the stop of the web server and then, when the stop
  returned an error, the stop-specific failure message with that error and nothing else
  (no start); when the stop succeeded, the start of the web server followed by the
  start-specific failure message when the start returned an error, and by the success
  message only when both calls returned without error. The answers of the web server
  are read at the moments the calls are made.
\<close>

theorem restartServer_reports:
  assumes "bot' t = Some b"
  shows "\<exists>evs r1 r2.
     restartServer env chatID t = Done (ext t evs) \<and>
     (case WebServer_Stop_err env (trace (state_of (sendMsg env chatID ''Restarting 3X-UI...'' t))) of
        Some e \<Rightarrow>
          calls evs = [Send chatID ''Restarting 3X-UI...'' None r1,
                       WebServerStop (Some e),
                       Send chatID (''Failed to stop server: '' @ e) None r2]
      | None \<Rightarrow>
          (case WebServer_Start_err env
                  (trace (state_of (sendMsg env chatID ''Restarting 3X-UI...'' t)) @ [WebServerStop None]) of
             Some e \<Rightarrow>
               calls evs = [Send chatID ''Restarting 3X-UI...'' None r1,
                            WebServerStop None,
                            WebServerStart (Some e),
                            Send chatID (''Failed to start server: '' @ e) None r2]
           | None \<Rightarrow>
               calls evs = [Send chatID ''Restarting 3X-UI...'' None r1,
                            WebServerStop None,
                            WebServerStart None,
                            Send chatID ''3X-UI restarted successfully.'' None r2]))"
  using assms
  by (simp add: restartServer_def sendMsg_ext emit_ext Let_def split: option.splits)


theorem restartServer_reports_witness:
  "bot' live_session = Some (BotAPI ''token'') \<and>
   (\<exists>evs r1 r2.
      restartServer (env_up\<lparr>WebServer_Stop_err := (\<lambda>tr. Some ''busy'')\<rparr>) 111 live_session =
        Done (ext live_session evs) \<and>
      calls evs = [Send 111 ''Restarting 3X-UI...'' None r1,
                   WebServerStop (Some ''busy''),
                   Send 111 ''Failed to stop server: busy'' None r2])"
  using restartServer_reports [of live_session "BotAPI ''token''"
      "env_up\<lparr>WebServer_Stop_err := (\<lambda>tr. Some ''busy'')\<rparr>" 111]
  by (simp add: live_session_def)

subsection \<open>The concrete environment and sessions, evaluated\<close>

lemma checkAdmin_env_up:
  "checkAdmin env_up 111" "checkAdmin env_up 222" "\<not> checkAdmin env_up 999"
  by (simp_all add: checkAdmin_def env_up_def ParseInt_111 ParseInt_222 ParseInt_abc)

lemma live_session_simps [simp]:
  "bot' live_session = Some (BotAPI ''token'')" "cron live_session = Some Cron"
  "stopping live_session = False" "cronId live_session = 0" "trace live_session = []"
  by (simp_all add: live_session_def)

lemma env_up_simps [simp]:
  "GetTgbotEnabled env_up" "GetTgBotToken env_up = ''token''"
  "GetTgBotChatId env_up = ''111,abc,222''" "GetTgbotRuntime env_up = []"
  "NewBotAPI_err env_up tr = None" "Send_err env_up tr = None" "Request_err env_up tr = None"
  "Parse_rest_err env_up spec = None" "WebServer_Stop_err env_up tr = None"
  "WebServer_Start_err env_up tr = None"
  "GetAllInbounds_result env_up tr = Inr [\<lparr>Tag = ''vmess-1'', Total = 1048576\<rparr>]"
  "ClearTraffic_err env_up tr = None" "FormatTraffic env_up n = ''1.00 MB''"
  by (simp_all add: env_up_def)

lemma decimal_digit: "n < 10 \<Longrightarrow> decimal n = [digit_char n]"
  by (simp add: decimal.simps)

lemma send_log_None [simp]: "send_log None = []"
  by (simp add: send_log_def)

lemma send_log_Some [simp]: "send_log (Some e) = [LogError [''Failed to send message:'', e]]"
  by (simp add: send_log_def)

subsection \<open>The authorization gate of the two routers\<close>

text \<open>The router of text messages applies the gate: a chat that is not on the allow-list
  gets the one refusal and nothing else is called.\<close>

lemma handleMessage_gate:
  assumes "bot' t = Some b" and "\<not> checkAdmin env (Message_Chat_ID msg)"
  shows "\<exists>evs r. handleMessage env msg t = Done (ext t evs) \<and>
           calls evs = [Send (Message_Chat_ID msg) ''You are not authorized to use this bot.'' None r]"
  using assms by (simp add: handleMessage_def sendMsg_ext)

text \<open>
  Claim C1 says that message handling and callback handling both apply the gate first,
  and that a chat that is not authorized gets a single refusal and no handler runs.
  \<open>handleCallback\<close> never calls \<open>checkAdmin\<close>. With the allow-list \<open>111,abc,222\<close>, the
  callback \<open>restart\<close> of a menu in chat 999, which is not authorized, stops and starts the web
  server, reports success to chat 999 and is acknowledged; no refusal is sent.
\<close>

theorem handleCallback_runs_unauthorized:
  "\<not> checkAdmin env_up 999 \<and>
   handleCallback env_up
     \<lparr>CallbackQuery_ID = ''cb1'',
      CallbackQuery_Message = Some \<lparr>Message_Chat_ID = 999, Message_Text = ''Select an option:''\<rparr>,
      CallbackQuery_Data = ''restart''\<rparr> live_session =
   Done (ext live_session
     [Send 999 ''Restarting 3X-UI...'' None None,
      WebServerStop None,
      WebServerStart None,
      Send 999 ''3X-UI restarted successfully.'' None None,
      AnswerCallback ''cb1'' [] None])"
  by (simp add: checkAdmin_env_up handleCallback_def restartServer_def sendMsg_ext emit_ext)

subsection \<open>The acknowledgement of a callback\<close>

lemma sendMsg_quiet:
  "bot' t = Some b \<Longrightarrow>
   \<exists>evs. sendMsg env c txt t = Done (ext t evs) \<and> replied c evs"
  by (simp add: sendMsg_ext replied_def)

lemma sendStatus_quiet:
  "bot' t = Some b \<Longrightarrow>
   \<exists>evs. sendStatus env c t = Done (ext t evs) \<and> replied c evs"
  by (simp add: sendStatus_def sendMsg_ext emit_ext replied_def Let_def split: sum.splits)

lemma restartServer_quiet:
  "bot' t = Some b \<Longrightarrow>
   \<exists>evs. restartServer env c t = Done (ext t evs) \<and> replied c evs"
  by (simp add: restartServer_def sendMsg_ext emit_ext replied_def Let_def split: option.splits)

lemma clearAll_quiet:
  "bot' t = Some b \<Longrightarrow>
   \<exists>evs. clearAll env c t = Done (ext t evs) \<and> replied c evs"
  by (simp add: clearAll_def sendMsg_ext emit_ext replied_def Let_def split: option.splits)

lemma answer_after:
  assumes "bot' t = Some b"
    and "\<exists>evs. h = Done (ext t evs) \<and> replied c evs"
  shows "\<exists>evs r. andThen h (\<lambda>t1. case bot' t1 of None \<Rightarrow> Panic t1
            | Some b \<Rightarrow> Done (emit (AnswerCallback i [] (Request_err env (trace t1))) t1)) =
          Done (ext t (evs @ [AnswerCallback i [] r])) \<and> replied c evs"
  using assms by (auto simp: emit_ext)

text \<open>
  A callback that carries its message, on a session with a bot handle: \<open>handleCallback\<close>
  returns, whatever the token and whatever the collaborators answer, and the events it
  adds are those of the handler, which sends at least one message, all to the chat of
  the callback's message, and makes no acknowledgement, followed by the one
  acknowledgement of this callback.
\<close>

lemma handleCallback_acknowledges_after_handler:
  assumes "bot' t = Some b" and "CallbackQuery_Message callback = Some message"
  shows "\<exists>evs r.
     handleCallback env callback t =
       Done (ext t (evs @ [AnswerCallback (CallbackQuery_ID callback) [] r])) \<and>
     replied (Message_Chat_ID message) evs"
  unfolding handleCallback_def Let_def assms(2) option.case
  by (rule answer_after [OF assms(1)])
     (simp add: sendStatus_quiet restartServer_quiet clearAll_quiet sendMsg_quiet assms(1))

text \<open>
  Claim C5 says that every received callback is acknowledged exactly once, after the
  handler. \<open>handleCallback\<close> reads the chat of the callback's message before anything
  else and does not test the pointer, as \<open>Start\<close>, \<open>Stop\<close> and the notifications test
  theirs. A callback without message, which \<open>Start\<close> dispatches like any other, makes it
  panic at once: nothing is sent and the callback is never acknowledged.
\<close>

theorem handleCallback_without_message_panics:
  "handleCallback env_up
     \<lparr>CallbackQuery_ID = ''cb9'', CallbackQuery_Message = None, CallbackQuery_Data = ''help''\<rparr>
     live_session = Panic live_session \<and>
   updates_loop env_up
     [\<lparr>Update_Message = None,
       Update_CallbackQuery =
         Some \<lparr>CallbackQuery_ID = ''cb9'', CallbackQuery_Message = None,
               CallbackQuery_Data = ''help''\<rparr>\<rparr>]
     live_session = Panic live_session \<and>
   filter is_AnswerCallback (trace live_session) = []"
  by (simp add: handleCallback_def)

subsection \<open>The replies to what matches no entry\<close>

text \<open>
  Claim C6, as stated, fails for text messages: the reply to the authorized text
  \<open>hello\<close> is \<open>Unknown command. Use /menu to see options.\<close>, not \<open>Unknown command.\<close>
\<close>

theorem handleMessage_unknown_counterexample:
  "checkAdmin env_up 111 \<and>
   handleMessage env_up \<lparr>Message_Chat_ID = 111, Message_Text = ''hello''\<rparr> live_session =
     Done (ext live_session [Send 111 ''Unknown command. Use /menu to see options.'' None None]) \<and>
   handleMessage env_up \<lparr>Message_Chat_ID = 111, Message_Text = ''hello''\<rparr> live_session \<noteq>
     Done (ext live_session [Send 111 ''Unknown command.'' None None])"
  by (simp add: checkAdmin_env_up handleMessage_def sendMsg_ext)

text \<open>
  Claim C6, amended. On a session with a bot handle: for every authorized text that is
  neither \<open>/start\<close> nor \<open>/menu\<close>, the one message sent is the literal
  \<open>Unknown command. Use /menu to see options.\<close>, to the chat of the message; for every
  callback token that is none of \<open>functions\<close>, \<open>status\<close>, \<open>restart\<close>, \<open>clearall\<close>, \<open>help\<close>,
  the one message sent is the literal \<open>Unknown option.\<close>, to the chat of the message the
  callback carries.
\<close>

theorem unknown_replies:
  assumes "bot' t = Some b"
  shows "(checkAdmin env (Message_Chat_ID msg) \<and> Message_Text msg \<noteq> ''/start'' \<and>
          Message_Text msg \<noteq> ''/menu'' \<longrightarrow>
            (\<exists>evs. handleMessage env msg t = Done (ext t evs) \<and>
               sends evs = [(Message_Chat_ID msg, ''Unknown command. Use /menu to see options.'', None)])) \<and>
         (CallbackQuery_Message callback = Some message \<and>
          CallbackQuery_Data callback \<notin> {''functions'', ''status'', ''restart'', ''clearall'', ''help''} \<longrightarrow>
            (\<exists>evs. handleCallback env callback t = Done (ext t evs) \<and>
               sends evs = [(Message_Chat_ID message, ''Unknown option.'', None)]))"
  using assms by (simp add: handleMessage_def handleCallback_def sendMsg_ext emit_ext Let_def)

theorem unknown_replies_witness:
  "bot' live_session = Some (BotAPI ''token'') \<and> checkAdmin env_up 111 \<and>
   (\<exists>evs. handleMessage env_up \<lparr>Message_Chat_ID = 111, Message_Text = ''hello''\<rparr> live_session =
             Done (ext live_session evs) \<and>
           sends evs = [(111, ''Unknown command. Use /menu to see options.'', None)]) \<and>
   (\<exists>evs. handleCallback env_up
             \<lparr>CallbackQuery_ID = ''cb2'',
              CallbackQuery_Message = Some \<lparr>Message_Chat_ID = 111, Message_Text = ''Select an option:''\<rparr>,
              CallbackQuery_Data = ''reboot''\<rparr> live_session = Done (ext live_session evs) \<and>
           sends evs = [(111, ''Unknown option.'', None)])"
  using unknown_replies [of live_session "BotAPI ''token''" env_up
      "\<lparr>Message_Chat_ID = 111, Message_Text = ''hello''\<rparr>"
      "\<lparr>CallbackQuery_ID = ''cb2'',
        CallbackQuery_Message = Some \<lparr>Message_Chat_ID = 111, Message_Text = ''Select an option:''\<rparr>,
        CallbackQuery_Data = ''reboot''\<rparr>"
      "\<lparr>Message_Chat_ID = 111, Message_Text = ''Select an option:''\<rparr>"]
  by (simp add: checkAdmin_env_up)

subsection \<open>The menu\<close>

text \<open>
  Claim C9. On a session with a bot handle, the reply to the authorized text \<open>/menu\<close> is
  one message, \<open>Select an option:\<close>, with the inline keyboard \<open>menuKeyboard\<close>: three rows
  of two, two and one buttons, whose callback tokens are \<open>functions\<close> and \<open>status\<close>,
  \<open>restart\<close> and \<open>clearall\<close>, and \<open>help\<close>.
\<close>

theorem menu_keyboard:
  assumes "bot' t = Some b" and "checkAdmin env (Message_Chat_ID msg)"
    and "Message_Text msg = ''/menu''"
  shows "(\<exists>evs. handleMessage env msg t = Done (ext t evs) \<and>
            sends evs = [(Message_Chat_ID msg, ''Select an option:'', Some menuKeyboard)]) \<and>
         map length menuKeyboard = [2, 2, 1] \<and>
         map (map button_data) menuKeyboard =
           [[''functions'', ''status''], [''restart'', ''clearall''], [''help'']] \<and>
         map (map button_text) menuKeyboard =
           [[''Functions'', ''Status''], [''Restart'', ''Clear All''], [''Help'']]"
  using assms showMenu_ext [of t b env "Message_Chat_ID msg"]
  by (auto simp add: handleMessage_def menuKeyboard_def)

theorem menu_keyboard_witness:
  "bot' live_session = Some (BotAPI ''token'') \<and> checkAdmin env_up 111 \<and>
   (\<exists>evs. handleMessage env_up \<lparr>Message_Chat_ID = 111, Message_Text = ''/menu''\<rparr> live_session =
            Done (ext live_session evs) \<and>
          sends evs = [(111, ''Select an option:'', Some menuKeyboard)]) \<and>
   map length menuKeyboard = [2, 2, 1]"
  using menu_keyboard [of live_session "BotAPI ''token''" env_up
      "\<lparr>Message_Chat_ID = 111, Message_Text = ''/menu''\<rparr>"]
  by (simp add: checkAdmin_env_up)

subsection \<open>The CPU usage of the status report\<close>

text \<open>
  Claim C10. \<open>getCPUUsage\<close> is the constant 45.5, printed by \<^verbatim>\<open>%.2f\<close> as \<open>45.50\<close>. Whenever
  the inbounds can be read, the status report of \<open>sendStatus\<close> is the header, one line
  for each inbound and the line \<open>CPU Usage: 45.50%\<close>, whatever the environment, the
  session and the inbounds.
\<close>

theorem status_cpu_usage:
  "getCPUUsage = Finite (91 / 2) \<and> fmt_f2 getCPUUsage = ''45.50'' \<and>
   (bot' t = Some b \<and> GetAllInbounds_result env (trace t) = Inr inbounds \<longrightarrow>
      (\<exists>evs. sendStatus env chatID t = Done (ext t evs) \<and>
         sends evs =
           [(chatID,
             foldl (\<lambda>s inbound. s @ ''Inbound '' @ Tag inbound @ '': '' @
                                  FormatTraffic env (Total inbound) @ ''\<newline>'')
               ''System Status:\<newline>'' inbounds @ ''CPU Usage: 45.50%\<newline>'',
             None)]))"
proof -
  have cpu: "fmt_f2 getCPUUsage = ''45.50''"
    by (simp add: getCPUUsage_def round_half_even_def decimal.simps digit_char_def)
  show ?thesis
    by (simp add: cpu sendStatus_def sendMsg_ext emit_ext Let_def) (simp add: getCPUUsage_def)
qed

theorem status_cpu_usage_witness:
  "bot' live_session = Some (BotAPI ''token'') \<and>
   GetAllInbounds_result env_up (trace live_session) = Inr [\<lparr>Tag = ''vmess-1'', Total = 1048576\<rparr>] \<and>
   (\<exists>evs. sendStatus env_up 111 live_session = Done (ext live_session evs) \<and>
      sends evs =
        [(111, ''System Status:\<newline>Inbound vmess-1: 1.00 MB\<newline>CPU Usage: 45.50%\<newline>'', None)])"
  using status_cpu_usage [of live_session "BotAPI ''token''" env_up
      "[\<lparr>Tag = ''vmess-1'', Total = 1048576\<rparr>]" 111]
  by simp

subsection \<open>The default schedule\<close>

lemma Fields_default:
  "Fields ''0 0 8 * * *'' = [''0'', ''0'', ''8'', ''*'', ''*'', ''*'']"
  by (simp add: Fields_def is_space_def)

lemma Fields_five: "Fields ''0 8 * * *'' = [''0'', ''8'', ''*'', ''*'', ''*'']"
  by (simp add: Fields_def is_space_def)

lemma standardParser_default:
  "standardParser_err env ''0 0 8 * * *'' =
     Some ''expected exactly 5 fields, found 6: [0 0 8 * * *]''"
  by (simp add: standardParser_err_def HasPrefix_def Fields_default fmt_d_def decimal_digit
      digit_char_def)

text \<open>With an empty schedule setting, in every environment and from every session that
  has a cron: the six-field default is handed to \<^verbatim>\<open>AddFunc\<close>, the parser of the cron refuses
  it, the error is logged, and that is all: no entry, no identifier kept, the cron not
  started.\<close>

lemma startCron_default_rejected:
  assumes "GetTgbotRuntime env = []" and "cron t = Some c"
  shows "startCron env t =
           Done (ext t [CronAddFunc ''0 0 8 * * *'' sendDailyReport_func 0
                          (Some ''expected exactly 5 fields, found 6: [0 0 8 * * *]''),
                        LogError [''Failed to add cron job:'',
                                  ''expected exactly 5 fields, found 6: [0 0 8 * * *]'']])"
  using assms
  by (simp add: startCron_def cron_AddFunc_def standardParser_default emit_ext Let_def)

text \<open>A schedule the parser accepts is registered: the entry gets the next identifier,
  the session keeps it and the cron is started.\<close>

lemma startCron_accepted:
  assumes "GetTgbotRuntime env = spec" and "spec \<noteq> []" and "standardParser_err env spec = None"
    and "cron t = Some c"
  shows "startCron env t =
           Done ((ext t [CronAddFunc spec sendDailyReport_func
                           (Suc (length (filter is_entry (trace t)))) None,
                         CronStart,
                         LogInfo [''Telegram bot cron started with schedule:'', spec]])
                   \<lparr>cronId := Suc (length (filter is_entry (trace t)))\<rparr>)"
  using assms
  by (simp add: startCron_def cron_AddFunc_def emit_def ext_def Let_def)

lemma startCron_five_fields:
  "startCron (env_up\<lparr>GetTgbotRuntime := ''0 8 * * *''\<rparr>) live_session =
     Done ((ext live_session
              [CronAddFunc ''0 8 * * *'' sendDailyReport_func 1 None,
               CronStart,
               LogInfo [''Telegram bot cron started with schedule:'', ''0 8 * * *'']])
             \<lparr>cronId := 1\<rparr>)"
proof -
  have "standardParser_err (env_up\<lparr>GetTgbotRuntime := ''0 8 * * *''\<rparr>) ''0 8 * * *'' = None"
    by (simp add: standardParser_err_def HasPrefix_def Fields_five)
  from startCron_accepted [OF _ _ this, of live_session Cron] show ?thesis
    by simp
qed

text \<open>
  Claim C8 says that with an empty schedule setting the scheduler registers the daily
  report under \<open>0 0 8 * * *\<close> and the schedule in effect is every day at 08:00. The code
  does pass that expression to \<^verbatim>\<open>AddFunc\<close>, but the cron of the session is built without the
  seconds option and takes five fields: from \<open>GetTgbot\<close>, with the setting empty, the
  registration fails, \<open>startCron\<close> logs the error and returns; no job is registered, the
  entry identifier stays 0 and the cron is not started.
\<close>

theorem startCron_default_not_registered:
  "GetTgbotRuntime env_up = [] \<and>
   startCron env_up GetTgbot =
     Done (ext GetTgbot
       [CronAddFunc ''0 0 8 * * *'' sendDailyReport_func 0
          (Some ''expected exactly 5 fields, found 6: [0 0 8 * * *]''),
        LogError [''Failed to add cron job:'',
                  ''expected exactly 5 fields, found 6: [0 0 8 * * *]'']]) \<and>
   cronId (state_of (startCron env_up GetTgbot)) = 0 \<and>
   CronStart \<notin> set (trace (state_of (startCron env_up GetTgbot)))"
proof -
  have run: "startCron env_up GetTgbot =
     Done (ext GetTgbot
       [CronAddFunc ''0 0 8 * * *'' sendDailyReport_func 0
          (Some ''expected exactly 5 fields, found 6: [0 0 8 * * *]''),
        LogError [''Failed to add cron job:'',
                  ''expected exactly 5 fields, found 6: [0 0 8 * * *]'']])"
    by (rule startCron_default_rejected [of env_up GetTgbot Cron]) (simp_all add: GetTgbot_def)
  show ?thesis
    unfolding run by (simp add: GetTgbot_def)
qed

subsection \<open>The fan-out of the notifications\<close>

lemma ParseInt_Nil: "ParseInt [] = (0, Some ErrSyntax)"
  by (simp add: ParseInt_def)

lemma AdminAllowList_alt:
  "AdminAllowList s =
     map (\<lambda>tok. fst (ParseInt tok)) (filter (\<lambda>tok. snd (ParseInt tok) = None) (Split s CHR '',''))"
proof -
  have "(\<lambda>tok. tok \<noteq> [] \<and> snd (ParseInt tok) = None) = (\<lambda>tok. snd (ParseInt tok) = None)"
    by (auto simp: ParseInt_Nil)
  then show ?thesis by (simp add: AdminAllowList_def)
qed

lemma broadcast_loop_ext:
  "bot' t = Some b \<Longrightarrow>
   \<exists>rs. length rs = length (filter (\<lambda>tok. snd (ParseInt tok) = None) toks) \<and>
     broadcast_loop env toks msg t =
       Done (ext t (concat (map (\<lambda>(c, r). Send c msg None r # send_log r)
          (zip (map (\<lambda>tok. fst (ParseInt tok)) (filter (\<lambda>tok. snd (ParseInt tok) = None) toks)) rs))))"
proof (induction toks arbitrary: t)
  case Nil
  have "broadcast_loop env [] msg t = Done (ext t [])" by simp
  then show ?case by simp
next
  case (Cons tok toks)
  obtain cid err where p: "ParseInt tok = (cid, err)"
    by (cases "ParseInt tok")
  show ?case
  proof (cases err)
    case (Some e)
    then have "broadcast_loop env (tok # toks) msg t = broadcast_loop env toks msg t"
      by (simp add: p)
    with Cons.IH [OF Cons.prems] Some p show ?thesis by simp
  next
    case None
    let ?r = "Send_err env (trace t)"
    let ?e = "Send cid msg None ?r # send_log ?r"
    let ?ids = "map (\<lambda>tok. fst (ParseInt tok)) (filter (\<lambda>tok. snd (ParseInt tok) = None) toks)"
    have b: "bot' (ext t ?e) = Some b" using Cons.prems by simp
    from Cons.IH [OF b] obtain rs where
      rs: "length rs = length (filter (\<lambda>tok. snd (ParseInt tok) = None) toks)"
        "broadcast_loop env toks msg (ext t ?e) =
           Done (ext (ext t ?e) (concat (map (\<lambda>(c, r). Send c msg None r # send_log r) (zip ?ids rs))))"
      by blast
    have run: "broadcast_loop env (tok # toks) msg t =
        Done (ext t (concat (map (\<lambda>(c, r). Send c msg None r # send_log r) (zip (cid # ?ids) (?r # rs)))))"
      using None Cons.prems rs(2) by (simp add: p sendMsg_ext)
    have len: "length (?r # rs) = length (filter (\<lambda>tok. snd (ParseInt tok) = None) (tok # toks))"
      using None rs(1) by (simp add: p)
    have ids: "map (\<lambda>tok. fst (ParseInt tok)) (filter (\<lambda>tok. snd (ParseInt tok) = None) (tok # toks)) =
        cid # ?ids"
      using None by (simp add: p)
    from run len show ?thesis unfolding ids by blast
  qed
qed

lemma delivered_broadcast:
  assumes "bot' t = Some b"
  shows "delivered env t msg (broadcast_loop env (Split (GetTgBotChatId env) CHR '','') msg t)"
proof -
  from broadcast_loop_ext [OF assms, of "Split (GetTgBotChatId env) CHR '',''" env msg]
  show ?thesis
    unfolding delivered_def AdminAllowList_alt by simp
qed

text \<open>
  Claim C3. Each of the four notifications (login, traffic limit, expiration, CPU load)
  returns the session as it is, with no event, when the bot is disabled or the bot
  handle is \<^verbatim>\<open>nil\<close>. Otherwise it returns, never panics, and what it has done is this:
  for every piece of the configured string that parses, in order, one send of its text
  to that chat, followed by one log line when that send failed. A piece that does not
  parse leaves no event, and a send is made for every entry whatever the client
  answered to the earlier ones.
\<close>

theorem Notify_fan_out:
  "(\<not> GetTgbotEnabled env \<or> bot' t = None \<longrightarrow>
      NotifyLogin env username ip t = Done t \<and>
      NotifyTrafficLimit env inbound t = Done t \<and>
      NotifyExpiration env inbound daysLeft t = Done t \<and>
      NotifyCPULoad env usage t = Done t) \<and>
   (GetTgbotEnabled env \<and> bot' t \<noteq> None \<longrightarrow>
      delivered env t
        (''User '' @ username @ '' logged in from IP '' @ ip @ '' at '' @ Now_RFC1123 env (trace t))
        (NotifyLogin env username ip t) \<and>
      delivered env t
        (''Inbound '' @ Tag inbound @ '' has reached traffic limit: '' @
         FormatTraffic env (Total inbound))
        (NotifyTrafficLimit env inbound t) \<and>
      delivered env t
        (''Inbound '' @ Tag inbound @ '' will expire in '' @ fmt_d (sint daysLeft) @ '' days.'')
        (NotifyExpiration env inbound daysLeft t) \<and>
      delivered env t
        (''CPU load has exceeded threshold: '' @ fmt_f2 usage @ ''%'')
        (NotifyCPULoad env usage t))"
proof -
  have off: "\<not> GetTgbotEnabled env \<or> bot' t = None \<Longrightarrow>
      NotifyLogin env username ip t = Done t \<and>
      NotifyTrafficLimit env inbound t = Done t \<and>
      NotifyExpiration env inbound daysLeft t = Done t \<and>
      NotifyCPULoad env usage t = Done t"
    by (auto simp: NotifyLogin_def NotifyTrafficLimit_def NotifyExpiration_def NotifyCPULoad_def)
  have on: "delivered env t msg (broadcast_loop env (Split (GetTgBotChatId env) CHR '','') msg t)"
    if "bot' t \<noteq> None" for msg
    using that delivered_broadcast by (cases "bot' t") auto
  show ?thesis
    using off on
    by (simp add: NotifyLogin_def NotifyTrafficLimit_def NotifyExpiration_def NotifyCPULoad_def Let_def)
qed

theorem Notify_fan_out_witness:
  "GetTgbotEnabled (env_up\<lparr>Send_err := (\<lambda>tr. if tr = [] then Some ''timeout'' else None)\<rparr>) \<and>
   bot' live_session \<noteq> None \<and>
   delivered (env_up\<lparr>Send_err := (\<lambda>tr. if tr = [] then Some ''timeout'' else None)\<rparr>) live_session
     ''Inbound vmess-1 will expire in 3 days.''
     (NotifyExpiration (env_up\<lparr>Send_err := (\<lambda>tr. if tr = [] then Some ''timeout'' else None)\<rparr>)
        \<lparr>Tag = ''vmess-1'', Total = 1048576\<rparr> 3 live_session) \<and>
   AdminAllowList (GetTgBotChatId (env_up\<lparr>Send_err := (\<lambda>tr. if tr = [] then Some ''timeout'' else None)\<rparr>)) = [111, 222] \<and>
   NotifyExpiration (env_up\<lparr>GetTgbotEnabled := False\<rparr>) \<lparr>Tag = ''vmess-1'', Total = 1048576\<rparr> 3 live_session =
     Done live_session"
  using Notify_fan_out [of "env_up\<lparr>Send_err := (\<lambda>tr. if tr = [] then Some ''timeout'' else None)\<rparr>"
      live_session "''admin''" "''10.0.0.1''" "\<lparr>Tag = ''vmess-1'', Total = 1048576\<rparr>" 3 "Finite 95"]
    Notify_fan_out [of "env_up\<lparr>GetTgbotEnabled := False\<rparr>"
      live_session "''admin''" "''10.0.0.1''" "\<lparr>Tag = ''vmess-1'', Total = 1048576\<rparr>" 3 "Finite 95"]
  by (simp add: fmt_d_def decimal_digit digit_char_def AdminAllowList_scenario)

text \<open>The run of the witness, event by event: the first send fails, the failure is
  logged, and the second entry of the allow-list is sent the text all the same.\<close>

lemma NotifyExpiration_run:
  "NotifyExpiration (env_up\<lparr>Send_err := (\<lambda>tr. if tr = [] then Some ''timeout'' else None)\<rparr>)
     \<lparr>Tag = ''vmess-1'', Total = 1048576\<rparr> 3 live_session =
   Done (ext live_session
     [Send 111 ''Inbound vmess-1 will expire in 3 days.'' None (Some ''timeout''),
      LogError [''Failed to send message:'', ''timeout''],
      Send 222 ''Inbound vmess-1 will expire in 3 days.'' None None])"
  by (simp add: NotifyExpiration_def fmt_d_def decimal_digit digit_char_def
      ParseInt_111 ParseInt_222 ParseInt_abc sendMsg_ext Let_def)

subsection \<open>Start and Stop\<close>

text \<open>What the session is after a router, the loop over the updates and the parts of
  \<open>Start\<close>, returned or not: the session before, with events added.\<close>

lemma handleMessage_returns:
  "bot' t = Some b \<Longrightarrow> \<exists>evs. handleMessage env msg t = Done (ext t evs)"
  using showMenu_ext [of t b env "Message_Chat_ID msg"]
  by (auto simp add: handleMessage_def sendMsg_ext)

lemma handleCallback_state:
  assumes "bot' t = Some b"
  shows "handleCallback env callback t = Panic t \<or>
         (\<exists>evs. handleCallback env callback t = Done (ext t evs))"
proof (cases "CallbackQuery_Message callback")
  case None
  then show ?thesis by (simp add: handleCallback_def)
next
  case (Some message)
  from handleCallback_acknowledges_after_handler [OF assms Some, of env]
  show ?thesis by blast
qed

lemma updates_loop_state:
  "bot' t = Some b \<Longrightarrow> \<exists>evs. state_of (updates_loop env updates t) = ext t evs"
proof (induction updates arbitrary: t)
  case Nil
  have "state_of (updates_loop env [] t) = ext t []" by simp
  then show ?case by blast
next
  case (Cons u us)
  let ?h = "case Update_Message u of
              Some msg \<Rightarrow> handleMessage env msg t
            | None \<Rightarrow> (case Update_CallbackQuery u of
                 Some callback \<Rightarrow> handleCallback env callback t
               | None \<Rightarrow> Done t)"
  have h: "?h = Panic t \<or> (\<exists>evs. ?h = Done (ext t evs))"
  proof (cases "Update_Message u")
    case (Some msg)
    with handleMessage_returns [OF Cons.prems] show ?thesis by simp
  next
    case None
    show ?thesis
    proof (cases "Update_CallbackQuery u")
      case (Some callback)
      with None handleCallback_state [OF Cons.prems] show ?thesis by simp
    next
      case n: None
      have "Done t = Done (ext t [])" by simp
      with None n show ?thesis by (simp del: ext_simps) blast
    qed
  qed
  show ?case
  proof (cases "stopping t")
    case True
    then have "state_of (updates_loop env (u # us) t) = ext t []" by simp
    then show ?thesis by blast
  next
    case False
    from h show ?thesis
    proof
      assume "?h = Panic t"
      with False have "state_of (updates_loop env (u # us) t) = ext t []" by simp
      then show ?thesis by blast
    next
      assume "\<exists>evs. ?h = Done (ext t evs)"
      then obtain evs where e: "?h = Done (ext t evs)" by blast
      have "bot' (ext t evs) = Some b" using Cons.prems by simp
      from Cons.IH [OF this] obtain evs' where
        "state_of (updates_loop env us (ext t evs)) = ext (ext t evs) evs'" by blast
      with False e have "state_of (updates_loop env (u # us) t) = ext t (evs @ evs')" by simp
      then show ?thesis by blast
    qed
  qed
qed

lemma setCommandMenu_returns:
  "bot' t = Some b \<Longrightarrow> \<exists>evs. setCommandMenu env t = Done (ext t evs)"
  by (simp add: setCommandMenu_def emit_ext Let_def split: option.splits)

lemma startCron_state:
  "\<exists>evs. trace (state_of (startCron env t)) = trace t @ evs \<and>
         bot' (state_of (startCron env t)) = bot' t \<and>
         (returns (startCron env t) \<or> startCron env t = Panic t)"
  by (simp add: startCron_def emit_def Let_def split: option.splits)

text \<open>With the bot enabled, the first thing \<open>Start\<close> does, on any session, is to ask for a
  new bot handle.\<close>

lemma Start_enabled_first_call:
  assumes "GetTgbotEnabled env"
  shows "\<exists>rest. trace (state_of (Start env updates t)) =
           trace t @ NewBotAPI (GetTgBotToken env) (NewBotAPI_err env (trace t)) # rest"
proof (cases "NewBotAPI_err env (trace t)")
  case (Some e)
  with assms show ?thesis by (simp add: Start_def emit_def Let_def)
next
  case None
  let ?new = "NewBotAPI (GetTgBotToken env) None"
  let ?t1 = "emit (LogInfo [''Telegram bot initialized successfully.''])
               ((emit ?new t)\<lparr>bot' := Some (BotAPI (GetTgBotToken env))\<rparr>)"
  have b1: "bot' ?t1 = Some (BotAPI (GetTgBotToken env))"
    and tr1: "trace ?t1 = trace t @ [?new, LogInfo [''Telegram bot initialized successfully.'']]"
    by (simp_all add: emit_def)
  from setCommandMenu_returns [OF b1] obtain evs2 where
    t2: "setCommandMenu env ?t1 = Done (ext ?t1 evs2)" by blast
  let ?t2 = "ext ?t1 evs2"
  from startCron_state [of env ?t2] obtain evs3 where
    t3: "trace (state_of (startCron env ?t2)) = trace ?t2 @ evs3"
      "bot' (state_of (startCron env ?t2)) = bot' ?t2"
      "returns (startCron env ?t2) \<or> startCron env ?t2 = Panic ?t2"
    by blast
  have start: "Start env updates t =
      andThen (startCron env ?t2) (\<lambda>t3. updates_loop env updates (emit (GetUpdatesChan 0 60) t3))"
    using assms None t2 by (simp add: Start_def Let_def)
  show ?thesis
  proof (cases "startCron env ?t2")
    case (Panic s)
    with t3(3) have "startCron env ?t2 = Panic ?t2" by simp
    with start have "state_of (Start env updates t) = ?t2" by simp
    then show ?thesis using None by (simp add: tr1)
  next
    case (Done s)
    with t3 have s: "trace s = trace ?t2 @ evs3" "bot' s = Some (BotAPI (GetTgBotToken env))"
      using b1 by simp_all
    have "bot' (emit (GetUpdatesChan 0 60) s) = Some (BotAPI (GetTgBotToken env))"
      using s(2) by (simp add: emit_def)
    from updates_loop_state [OF this] obtain evs4 where
      "state_of (updates_loop env updates (emit (GetUpdatesChan 0 60) s)) =
         ext (emit (GetUpdatesChan 0 60) s) evs4" by blast
    with start Done have
      "trace (state_of (Start env updates t)) = trace s @ GetUpdatesChan 0 60 # evs4"
      by (simp add: emit_def)
    then show ?thesis using None by (simp add: s(1) tr1)
  qed
qed

lemma Start_noop_iff_disabled:
  "(\<exists>evs. Start env updates t = Done (ext t evs) \<and> calls evs = []) \<longleftrightarrow> \<not> GetTgbotEnabled env"
proof
  assume "\<exists>evs. Start env updates t = Done (ext t evs) \<and> calls evs = []"
  then obtain evs where e: "Start env updates t = Done (ext t evs)" "calls evs = []" by blast
  show "\<not> GetTgbotEnabled env"
  proof
    assume "GetTgbotEnabled env"
    from Start_enabled_first_call [OF this, of updates t] obtain rest where
      "trace (state_of (Start env updates t)) =
         trace t @ NewBotAPI (GetTgBotToken env) (NewBotAPI_err env (trace t)) # rest" by blast
    with e(1) have "evs = NewBotAPI (GetTgBotToken env) (NewBotAPI_err env (trace t)) # rest"
      by simp
    with e(2) show False by simp
  qed
next
  assume "\<not> GetTgbotEnabled env"
  then have "Start env updates t = Done (ext t [LogInfo [''Telegram bot is disabled in settings.'']])"
    by (simp add: Start_def emit_ext)
  moreover have "calls [LogInfo [''Telegram bot is disabled in settings.'']] = []" by simp
  ultimately show "\<exists>evs. Start env updates t = Done (ext t evs) \<and> calls evs = []" by blast
qed

lemma Stop_no_handle:
  "bot' t = None \<Longrightarrow>
   Stop t = Done ((ext t ((if cron t \<noteq> None then [CronStop] else []) @
                          [LogInfo [''Telegram bot stopped.'']]))\<lparr>stopping := True\<rparr>)"
  by (simp add: Stop_def Stop_cron_def emit_def ext_def Let_def)

lemma Stop_times_no_handle:
  "bot' t = None \<Longrightarrow>
   \<exists>t'. Stop_times n t = Done t' \<and>
        session_of t' = (None, cron t, stopping t \<or> 0 < n, cronId t)"
proof (induction n arbitrary: t)
  case 0
  then show ?case by (simp add: session_of_def)
next
  case (Suc n)
  let ?t1 = "(ext t ((if cron t \<noteq> None then [CronStop] else []) @
                     [LogInfo [''Telegram bot stopped.'']]))\<lparr>stopping := True\<rparr>"
  have "bot' ?t1 = None" using Suc.prems by simp
  from Suc.IH [OF this] obtain t' where
    "Stop_times n ?t1 = Done t'"
    "session_of t' = (None, cron ?t1, stopping ?t1 \<or> 0 < n, cronId ?t1)"
    by blast
  then show ?case using Suc.prems by (simp add: Stop_no_handle)
qed

lemma Stop_first:
  "bot' t = Some (BotAPI token) \<Longrightarrow>
   \<exists>t'. Stop t = Done t' \<and>
        session_of t' = (Some (BotAPI_shutdown token), cron t, True, cronId t)"
  by (simp add: Stop_def Stop_cron_def emit_def session_of_def Let_def)

text \<open>A \<open>Stop\<close> on a handle whose channel is closed already panics, with the stop flag set.\<close>

lemma Stop_again_panics:
  "bot' t = Some (BotAPI_shutdown token) \<Longrightarrow>
   Stop t = Panic (emit StopReceivingUpdates (t\<lparr>stopping := True\<rparr>))"
  by (simp add: Stop_def Let_def)




end
